theory Spec2Isabelle
  imports Complex_Main "HOL-Library.Char_ord" "HOL-Library.List_Lexorder"
begin

section \<open>Data model (the interfaces of the \<open>Timeline\<close> component)\<close>

text \<open>
  A \<open>Date\<close> is represented by its time value, a whole number of milliseconds since the
  epoch (\<open>getTime()\<close>).  JavaScript numbers are modelled by exact reals: rounding,
  infinities and \<open>NaN\<close> of IEEE doubles are not represented, and every \<open>Date\<close> is assumed
  valid and inside the range of \<open>Date\<close>.  An optional field (\<open>end?\<close>, \<open>color?\<close>) is an
  \<open>option\<close>, \<open>None\<close> standing for \<open>undefined\<close>.
\<close>

record Event =
  ev_title :: string
  ev_start :: int
  ev_end :: "int option"
  ev_color :: "string option"

record EventCollection =
  ec_events :: "Event list"
  ec_title :: string

record TimelineExtent =
  ext_start :: int
  ext_end :: int

record PositionedEvent =
  left :: real
  eventWidth :: real
  displayWidth :: real
  textWidth :: real
  height :: real
  top_px :: real
  event :: Event
  lane :: nat

record PositionEventCollection =
  positionedEvents :: "PositionedEvent list"
  pc_title :: string

definition dotSize :: real where
  "dotSize = 16"

definition textPadding :: real where
  "textPadding = 3"

definition halfDotSize :: real where
  "halfDotSize = dotSize / 2"

text \<open>Truthiness of an optional string: \<open>undefined\<close> and the empty string are falsy.\<close>

definition truthy :: "string option \<Rightarrow> bool" where
  "truthy c = (case c of None \<Rightarrow> False | Some s \<Rightarrow> s \<noteq> [])"

section \<open>Layout (the body of \<open>layout\<close> in \<open>Timeline\<close>)\<close>

text \<open>
  \<open>measureText\<close> looks the text up in \<open>measuredTextCache\<close> and measures it with the canvas
  context on a miss; only the width of the \<open>TextMetrics\<close> is ever read.  The canvas
  measurement is the parameter \<open>canvasMeasure\<close>.
\<close>

type_synonym text_cache = "string \<rightharpoonup> real"

definition measureText :: "(string \<Rightarrow> real) \<Rightarrow> text_cache \<Rightarrow> string \<Rightarrow> real \<times> text_cache" where
  "measureText canvasMeasure cache text =
     (case cache text of
        Some cached \<Rightarrow> (cached, cache)
      | None \<Rightarrow> (let metrics = canvasMeasure text in (metrics, cache(text \<mapsto> metrics))))"

definition coloredLanes :: "PositionedEvent list \<Rightarrow> nat set" where
  "coloredLanes ps = set (map lane (filter (\<lambda>x. truthy (ev_color (event x))) ps))"

text \<open>
  \<open>Array.prototype.find\<close> returns the first \<^emph>\<open>element\<close> whose (element, index) pair
  satisfies the predicate, and \<open>undefined\<close> when there is none.
\<close>

fun array_find :: "('a \<Rightarrow> nat \<Rightarrow> bool) \<Rightarrow> nat \<Rightarrow> 'a list \<Rightarrow> 'a option" where
  "array_find P i [] = None"
| "array_find P i (x # xs) = (if P x i then Some x else array_find P (Suc i) xs)"

text \<open>
  \<open>Array.from({ length: n })\<close> is an array of \<open>n\<close> times \<open>undefined\<close>; the elements are
  typed \<open>nat option\<close> here since the source casts the result of \<open>find\<close> to \<open>number\<close>.
\<close>

definition nextNonColoredLane :: "nat set \<Rightarrow> nat option" where
  "nextNonColoredLane cl =
     (case array_find (\<lambda>_ i. i \<notin> cl) 0 (replicate (card cl + 1) (None :: nat option)) of
        None \<Rightarrow> None
      | Some x \<Rightarrow> x)"

definition preferredLane :: "PositionedEvent list \<Rightarrow> Event \<Rightarrow> nat" where
  "preferredLane ps e =
     (case find (\<lambda>x. ev_color (event x) = ev_color e) ps of
        Some x \<Rightarrow> lane x
      | None \<Rightarrow> (case nextNonColoredLane (coloredLanes ps) of Some n \<Rightarrow> n | None \<Rightarrow> 0))"

definition blocks :: "real \<Rightarrow> real \<Rightarrow> nat \<Rightarrow> PositionedEvent \<Rightarrow> bool" where
  "blocks l dw n p = (lane p = n \<and> left p < l + dw \<and> left p + displayWidth p > l)"

text \<open>The \<open>while\<close> loop: \<open>lane++\<close> as long as some placed event on the lane is in the way.\<close>

function find_lane :: "PositionedEvent list \<Rightarrow> real \<Rightarrow> real \<Rightarrow> nat \<Rightarrow> nat" where
  "find_lane ps l dw n = (if list_ex (blocks l dw n) ps then find_lane ps l dw (n + 1) else n)"
  by pat_completeness auto
termination
proof (relation "measure (\<lambda>(ps, l, dw, n). Suc (Max (set (map lane ps))) - n)")
  show "wf (measure (\<lambda>(ps, l, dw, n). Suc (Max (set (map lane ps))) - n))"
    by simp
next
  fix ps :: "PositionedEvent list" and l dw :: real and n :: nat
  assume "list_ex (blocks l dw n) ps"
  then obtain p where p: "p \<in> set ps" "lane p = n"
    by (auto simp: list_ex_iff blocks_def)
  then have "n \<le> Max (set (map lane ps))"
    by (intro Max_ge) auto
  then show "((ps, l, dw, n + 1), (ps, l, dw, n))
      \<in> measure (\<lambda>(ps, l, dw, n). Suc (Max (set (map lane ps))) - n)"
    by simp
qed

definition position_event ::
  "(string \<Rightarrow> real) \<Rightarrow> TimelineExtent \<Rightarrow> real \<Rightarrow> text_cache \<times> PositionedEvent list \<Rightarrow> Event
     \<Rightarrow> text_cache \<times> PositionedEvent list" where
  "position_event canvasMeasure extent scale acc e =
     (let cache = fst acc;
          ps = snd acc;
          l = real_of_int (ev_start e - ext_start extent) * scale - halfDotSize + 1;
          ew = real_of_int ((case ev_end e of Some t \<Rightarrow> t | None \<Rightarrow> ev_start e) - ev_start e) * scale
                 + halfDotSize - 1;
          (tw, cache') = measureText canvasMeasure cache (ev_title e);
          dw = max (max dotSize ew) (dotSize + tw + 2 * textPadding);
          n = find_lane ps l dw (preferredLane ps e)
      in (cache',
          ps @ [\<lparr> left = l, eventWidth = max dotSize ew, displayWidth = dw, textWidth = tw,
                  height = dotSize, top_px = real n * (dotSize + textPadding * 2),
                  event = e, lane = n \<rparr>]))"

definition position_collection ::
  "(string \<Rightarrow> real) \<Rightarrow> TimelineExtent \<Rightarrow> real \<Rightarrow> text_cache \<times> PositionEventCollection list
     \<Rightarrow> EventCollection \<Rightarrow> text_cache \<times> PositionEventCollection list" where
  "position_collection canvasMeasure extent scale acc c =
     (let (cache', ps) = foldl (position_event canvasMeasure extent scale) (fst acc, []) (ec_events c)
      in (cache', snd acc @ [\<lparr> positionedEvents = ps, pc_title = ec_title c \<rparr>]))"

text \<open>
  The state that \<open>layout\<close> writes: the text cache and \<open>eventPositions\<close>.  The width and
  height of the container are \<open>None\<close> when \<open>container.current\<close> is null; a missing or zero
  dimension makes \<open>layout\<close> return without writing anything.  For an extent without
  width the source divides by zero and goes on with infinities and \<open>NaN\<close>, where the
  model goes on with 0; what is proved about lanes below uses the comparisons of the
  scan only, not the values of \<open>left\<close> and \<open>displayWidth\<close>.
\<close>

record LayoutState =
  measuredTextCache :: text_cache
  eventPositions :: "PositionEventCollection list"

definition falsy_dim :: "nat option \<Rightarrow> bool" where
  "falsy_dim d = (case d of None \<Rightarrow> True | Some n \<Rightarrow> n = 0)"

definition layout ::
  "(string \<Rightarrow> real) \<Rightarrow> nat option \<Rightarrow> nat option \<Rightarrow> TimelineExtent \<Rightarrow> EventCollection list
     \<Rightarrow> LayoutState \<Rightarrow> LayoutState" where
  "layout canvasMeasure offsetWidth offsetHeight extent sortedCollection st =
     (if falsy_dim offsetWidth \<or> falsy_dim offsetHeight then st
      else
        let scale = real (the offsetWidth) / real_of_int (ext_end extent - ext_start extent);
            (cache', pcs) = foldl (position_collection canvasMeasure extent scale)
                              (measuredTextCache st, []) sortedCollection
        in \<lparr> measuredTextCache = cache', eventPositions = pcs \<rparr>)"

text \<open>The overlap test of two placed events, as the specification words it.\<close>

definition spans_overlap :: "PositionedEvent \<Rightarrow> PositionedEvent \<Rightarrow> bool" where
  "spans_overlap a b =
     (left a < left b + displayWidth b \<and> left b < left a + displayWidth a)"

declare find_lane.simps [simp del]

section \<open>The initial extent (\<open>calculateExtent\<close>)\<close>

text \<open>
  \<open>events[0].start\<close> on an empty array reads a property of \<open>undefined\<close> and throws a
  \<open>TypeError\<close>; this is the only failure of \<open>calculateExtent\<close>.
\<close>

datatype error = TypeError

definition end_or_start :: "Event \<Rightarrow> int" where
  "end_or_start e = (case ev_end e of Some t \<Rightarrow> t | None \<Rightarrow> ev_start e)"

text \<open>The reducer: \<open>end = end || start\<close>, then the smaller start and the larger end.\<close>

definition extent_step :: "TimelineExtent \<Rightarrow> Event \<Rightarrow> TimelineExtent" where
  "extent_step acc e =
     (let en = end_or_start e
      in \<lparr> ext_start = (if ev_start e < ext_start acc then ev_start e else ext_start acc),
           ext_end = (if en > ext_end acc then en else ext_end acc) \<rparr>)"

text \<open>
  \<open>getFullYear\<close> and \<open>new Date(y, 0, 1)\<close> depend on the time zone of the host, so they are
  parameters: \<open>getFullYear t\<close> is the calendar year of the time value \<open>t\<close>, and
  \<open>newDateYear y\<close> is the time value of \<open>new Date(y, 0, 1)\<close>.
\<close>

definition calculateExtent ::
  "(int \<Rightarrow> int) \<Rightarrow> (int \<Rightarrow> int) \<Rightarrow> EventCollection list \<Rightarrow> error + TimelineExtent" where
  "calculateExtent getFullYear newDateYear collection =
     (let events = concat (map ec_events collection)
      in case events of
           [] \<Rightarrow> Inl TypeError
         | e0 # _ \<Rightarrow>
             (let extent = foldl extent_step
                             \<lparr> ext_start = ev_start e0, ext_end = ev_start e0 \<rparr> events
              in Inr (if getFullYear (ext_end extent) - getFullYear (ext_start extent) > 20
                      then extent \<lparr> ext_end := newDateYear (getFullYear (ext_start extent) + 20) \<rparr>
                      else extent)))"

subsection \<open>The calendar of a host whose local time zone is UTC\<close>

text \<open>
  The proleptic Gregorian calendar, computed by the usual era and day-of-era arithmetic on
  day numbers (day 0 is 1 January 1970).  \<open>new Date(y, 0, 1)\<close> maps the years 0 to 99 to
  1900 to 1999.
\<close>

definition msPerDay :: int where
  "msPerDay = 86400000"

definition days_from_civil :: "int \<Rightarrow> int \<Rightarrow> int \<Rightarrow> int" where
  "days_from_civil y m d =
     (let y' = (if m \<le> 2 then y - 1 else y);
          era = y' div 400;
          yoe = y' - era * 400;
          doy = (153 * (if m > 2 then m - 3 else m + 9) + 2) div 5 + d - 1;
          doe = yoe * 365 + yoe div 4 - yoe div 100 + doy
      in era * 146097 + doe - 719468)"

definition year_from_days :: "int \<Rightarrow> int" where
  "year_from_days z =
     (let z' = z + 719468;
          era = z' div 146097;
          doe = z' - era * 146097;
          yoe = (doe - doe div 1460 + doe div 36524 - doe div 146096) div 365;
          doy = doe - (365 * yoe + yoe div 4 - yoe div 100);
          mp = (5 * doy + 2) div 153;
          m = (if mp < 10 then mp + 3 else mp - 9)
      in yoe + era * 400 + (if m \<le> 2 then 1 else 0))"

definition utc_getFullYear :: "int \<Rightarrow> int" where
  "utc_getFullYear t = year_from_days (t div msPerDay)"

definition utc_newDateYear :: "int \<Rightarrow> int" where
  "utc_newDateYear y =
     days_from_civil (if 0 \<le> y \<and> y \<le> 99 then 1900 + y else y) 1 1 * msPerDay"

section \<open>Pan and zoom (\<open>calculateNewPan\<close>, \<open>calculateNewZoom\<close> and the gesture handlers)\<close>

text \<open>
  \<open>new Date(x)\<close> keeps the integral part of \<open>x\<close> (truncation towards zero) as the time
  value.
\<close>

definition new_Date :: "real \<Rightarrow> int" where
  "new_Date x = (if 0 \<le> x then \<lfloor>x\<rfloor> else \<lceil>x\<rceil>)"

text \<open>
  \<open>offsetWidth\<close> is the width of the container, a whole number of pixels.  Division by
  zero is not modelled: the results for \<open>offsetWidth = 0\<close> are not those of the source
  (which produces an invalid \<open>Date\<close>).
\<close>

definition calculateNewPan :: "nat \<Rightarrow> real \<Rightarrow> int \<Rightarrow> int \<Rightarrow> TimelineExtent" where
  "calculateNewPan offsetWidth delta start end =
     (let scale = real offsetWidth / real_of_int (end - start)
      in \<lparr> ext_start = new_Date (real_of_int start - delta / scale),
           ext_end = new_Date (real_of_int end - delta / scale) \<rparr>)"


text \<open>The updater that the inertia callback passes to \<open>setExtent\<close>.\<close>

definition inertia_callback :: "nat \<Rightarrow> real \<Rightarrow> TimelineExtent \<Rightarrow> TimelineExtent" where
  "inertia_callback offsetWidth delta extent =
     calculateNewPan offsetWidth delta (ext_start extent) (ext_end extent)"



text \<open>
  An earlier copy of the component has its own drag handler, with the zoom written out and
  the sensitivity 250; its new end is computed from the start that has already moved.
\<close>

definition onDrag_extent_earlier ::
  "nat \<Rightarrow> real \<times> real \<Rightarrow> real \<Rightarrow> TimelineExtent \<Rightarrow> TimelineExtent" where
  "onDrag_extent_earlier offsetWidth delta x extent =
     (let panDelta = fst delta;
          zoomDelta = snd delta;
          scale = real offsetWidth / real_of_int (ext_end extent - ext_start extent);
          newStart = new_Date (real_of_int (ext_start extent) - panDelta / scale);
          newEnd = new_Date (real_of_int (ext_end extent) - panDelta / scale);
          center = x / real offsetWidth;
          zoomScale = 1 + zoomDelta / 250;
          newStart' = new_Date (real_of_int newStart
                        - real_of_int (newEnd - newStart) * center * (zoomScale - 1));
          newEnd' = new_Date (real_of_int newEnd
                        + real_of_int (newEnd - newStart') * (1 - center) * (zoomScale - 1))
      in \<lparr> ext_start = newStart', ext_end = newEnd' \<rparr>)"

text \<open>
  The zoom of the specification, on real numbers: \<open>factor = 1 + deltaUnits / K\<close>, the start
  recedes by \<open>span * center * (factor - 1)\<close> and the end advances by
  \<open>span * (1 - center) * (factor - 1)\<close>.
\<close>

definition spec_zoom :: "real \<Rightarrow> real \<Rightarrow> real \<Rightarrow> TimelineExtent \<Rightarrow> real \<times> real" where
  "spec_zoom K deltaUnits center extent =
     (let factor = 1 + deltaUnits / K;
          span = real_of_int (ext_end extent - ext_start extent)
      in (real_of_int (ext_start extent) - span * center * (factor - 1),
          real_of_int (ext_end extent) + span * (1 - center) * (factor - 1)))"

definition as_dates :: "real \<times> real \<Rightarrow> TimelineExtent" where
  "as_dates p = \<lparr> ext_start = new_Date (fst p), ext_end = new_Date (snd p) \<rparr>"

text \<open>The pan of the specification: \<open>pan(deltaPx, extent, containerWidthPx)\<close>.\<close>

definition pan :: "real \<Rightarrow> TimelineExtent \<Rightarrow> nat \<Rightarrow> TimelineExtent" where
  "pan deltaPx extent containerWidthPx =
     calculateNewPan containerWidthPx deltaPx (ext_start extent) (ext_end extent)"

section \<open>Inertia (\<open>useInertia\<close>)\<close>

text \<open>
  The state of one \<open>useInertia\<close> instance and of the part of the window it uses: the
  \<open>velocity\<close> state, the \<open>intervalId\<close> ref, the set of intervals of the window that are
  still active (\<open>setInterval\<close> adds a fresh id, \<open>clearInterval\<close> removes one), and what
  the callback has done so far: the arguments it was called with, in order, and the state
  \<open>app\<close> it works on.  State updates take effect at once.
\<close>

record 'a Inertia =
  velocity :: real
  intervalId :: "nat option"
  timers :: "nat set"
  nextTimer :: nat
  calls :: "real list"
  app :: 'a

definition beginInertia :: "real \<Rightarrow> 'a Inertia \<Rightarrow> 'a Inertia" where
  "beginInertia initialVelocity s =
     s \<lparr> velocity := initialVelocity,
         intervalId := Some (nextTimer s),
         timers := insert (nextTimer s) (timers s),
         nextTimer := nextTimer s + 1 \<rparr>"

definition clearInterval :: "nat option \<Rightarrow> nat set \<Rightarrow> nat set" where
  "clearInterval i ts = (case i of None \<Rightarrow> ts | Some j \<Rightarrow> ts - {j})"

definition endInertia :: "'a Inertia \<Rightarrow> 'a Inertia" where
  "endInertia s =
     (if intervalId s \<noteq> None
      then s \<lparr> timers := clearInterval (intervalId s) (timers s), intervalId := None \<rparr>
      else s)"

text \<open>
  The interval \<open>i\<close> fires.  A cleared interval never fires; an active one runs the handler
  that \<open>beginInertia\<close> installed: the callback is called with the velocity, then the
  velocity decays, or the run ends by clearing the interval that \<open>intervalId\<close> holds.
\<close>

definition tick :: "(real \<Rightarrow> 'a \<Rightarrow> 'a) \<Rightarrow> nat \<Rightarrow> 'a Inertia \<Rightarrow> 'a Inertia" where
  "tick callback i s =
     (if i \<notin> timers s then s
      else
        let s' = s \<lparr> calls := calls s @ [velocity s], app := callback (velocity s) (app s) \<rparr>
        in if \<bar>velocity s\<bar> < 0.1
           then s' \<lparr> timers := clearInterval (intervalId s) (timers s),
                    intervalId := None,
                    velocity := 0 \<rparr>
           else s' \<lparr> velocity := velocity s * 0.95 \<rparr>)"

datatype action = Begin real | End | Tick nat

fun step :: "(real \<Rightarrow> 'a \<Rightarrow> 'a) \<Rightarrow> action \<Rightarrow> 'a Inertia \<Rightarrow> 'a Inertia" where
  "step callback (Begin v) s = beginInertia v s"
| "step callback End s = endInertia s"
| "step callback (Tick i) s = tick callback i s"

fun run :: "(real \<Rightarrow> 'a \<Rightarrow> 'a) \<Rightarrow> action list \<Rightarrow> 'a Inertia \<Rightarrow> 'a Inertia" where
  "run callback [] s = s"
| "run callback (a # as) s = run callback as (step callback a s)"

definition initial :: "'a \<Rightarrow> 'a Inertia" where
  "initial a =
     \<lparr> velocity = 0, intervalId = None, timers = {}, nextTimer = 1, calls = [], app = a \<rparr>"

fun is_Begin :: "action \<Rightarrow> bool" where
  "is_Begin (Begin v) = True"
| "is_Begin a = False"

text \<open>
  The discipline of the drag handler: a run is only started when \<open>intervalId\<close> holds no
  interval.
\<close>

fun begins_when_idle :: "(real \<Rightarrow> 'a \<Rightarrow> 'a) \<Rightarrow> action list \<Rightarrow> 'a Inertia \<Rightarrow> bool" where
  "begins_when_idle callback [] s = True"
| "begins_when_idle callback (a # as) s =
     ((if is_Begin a then intervalId s = None else True)
      \<and> begins_when_idle callback as (step callback a s))"

section \<open>Sorting (\<open>sortedCollection\<close> in \<open>Timeline\<close>)\<close>

text \<open>
  The comparator of the sort.  Strings are compared as \<open>char\<close> lists, lexicographically,
  which is the order of JavaScript on ASCII strings.
\<close>

definition compareEvents :: "Event \<Rightarrow> Event \<Rightarrow> int" where
  "compareEvents a b =
     (if truthy (ev_color a) \<and> truthy (ev_color b) \<and> the (ev_color a) < the (ev_color b) then - 1
      else if truthy (ev_color a) \<and> truthy (ev_color b) \<and> the (ev_color a) > the (ev_color b) then 1
      else if ev_start a < ev_start b then - 1
      else if ev_start a > ev_start b then 1
      else 0)"

text \<open>
  \<open>Array.prototype.sort\<close> is stable.  With a consistent comparator its result is the one
  of insertion sort; with an inconsistent one (this comparator can be, when coloured and
  colourless events are mixed) the language leaves the order to the implementation, and
  the model keeps insertion sort.
\<close>

fun insert_by :: "('a \<Rightarrow> 'a \<Rightarrow> int) \<Rightarrow> 'a \<Rightarrow> 'a list \<Rightarrow> 'a list" where
  "insert_by cmp x [] = [x]"
| "insert_by cmp x (y # ys) = (if cmp x y \<le> 0 then x # y # ys else y # insert_by cmp x ys)"

definition array_sort :: "('a \<Rightarrow> 'a \<Rightarrow> int) \<Rightarrow> 'a list \<Rightarrow> 'a list" where
  "array_sort cmp xs = foldr (insert_by cmp) xs []"

text \<open>
  The arrays of events live in a store, addressed by references: \<open>sort\<close> sorts the array
  it is called on in place and returns that same array, so the \<open>events\<close> of the sorted
  collection and of the collection passed in are one array.
\<close>

type_synonym ref = nat

type_synonym store = "ref \<Rightarrow> Event list"

record CollectionRef =
  cr_events :: ref
  cr_title :: string

definition sort_in_place :: "store \<times> CollectionRef list \<Rightarrow> CollectionRef \<Rightarrow> store \<times> CollectionRef list" where
  "sort_in_place acc c =
     (let h = fst acc
      in (h (cr_events c := array_sort compareEvents (h (cr_events c))),
          snd acc @ [\<lparr> cr_events = cr_events c, cr_title = cr_title c \<rparr>]))"

definition sortedCollection :: "store \<Rightarrow> CollectionRef list \<Rightarrow> store \<times> CollectionRef list" where
  "sortedCollection h collection = foldl sort_in_place (h, []) collection"

definition deref :: "store \<Rightarrow> CollectionRef \<Rightarrow> EventCollection" where
  "deref h c = \<lparr> ec_events = h (cr_events c), ec_title = cr_title c \<rparr>"

text \<open>
  One render of \<open>Timeline\<close> followed by its layout effect: the collection is sorted, then
  laid out.  The result is the store afterwards and the layout state.
\<close>

definition render_layout ::
  "(string \<Rightarrow> real) \<Rightarrow> nat option \<Rightarrow> nat option \<Rightarrow> TimelineExtent \<Rightarrow> store \<Rightarrow> CollectionRef list
     \<Rightarrow> LayoutState \<Rightarrow> store \<times> LayoutState" where
  "render_layout canvasMeasure offsetWidth offsetHeight extent h collection st =
     (let (h', sorted) = sortedCollection h collection
      in (h', layout canvasMeasure offsetWidth offsetHeight extent (map (deref h') sorted) st))"

section \<open>Invariants of a row of placed events\<close>

text \<open>Of two placed events on one lane, the later one does not overlap the earlier one.\<close>

definition lanes_ok :: "PositionedEvent list \<Rightarrow> bool" where
  "lanes_ok ps =
     (\<forall>i<length ps. \<forall>j<i. lane (ps ! i) = lane (ps ! j) \<longrightarrow> \<not> spans_overlap (ps ! j) (ps ! i))"

text \<open>
  Every placed event has the lane that the scan finds, starting from its preferred lane,
  among the events placed before it.
\<close>

definition scan_placed :: "PositionedEvent list \<Rightarrow> bool" where
  "scan_placed ps =
     (\<forall>j<length ps. lane (ps ! j) =
        find_lane (take j ps) (left (ps ! j)) (displayWidth (ps ! j))
          (preferredLane (take j ps) (event (ps ! j))))"


section \<open>Concrete inputs\<close>

text \<open>
  A row of three colourless events and a row of three red events, laid out in a container
  of 1000 by 500 pixels over an extent of 1000 ms (one pixel per millisecond), every label
  10 pixels wide.
\<close>

definition plain_events :: "Event list" where
  "plain_events =
     [\<lparr> ev_title = ''a'', ev_start = 0, ev_end = None, ev_color = None \<rparr>,
      \<lparr> ev_title = ''b'', ev_start = 10, ev_end = None, ev_color = None \<rparr>,
      \<lparr> ev_title = ''c'', ev_start = 100, ev_end = Some 200, ev_color = None \<rparr>]"

definition red_events :: "Event list" where
  "red_events =
     [\<lparr> ev_title = ''x'', ev_start = 0, ev_end = None, ev_color = Some ''red'' \<rparr>,
      \<lparr> ev_title = ''a'', ev_start = 10, ev_end = None, ev_color = Some ''red'' \<rparr>,
      \<lparr> ev_title = ''b'', ev_start = 100, ev_end = None, ev_color = Some ''red'' \<rparr>]"

definition label10 :: "string \<Rightarrow> real" where
  "label10 text = 10"

definition layout_of :: "Event list \<Rightarrow> LayoutState" where
  "layout_of es =
     layout label10 (Some 1000) (Some 500) \<lparr> ext_start = 0, ext_end = 1000 \<rparr>
       [\<lparr> ec_events = es, ec_title = ''row'' \<rparr>]
       \<lparr> measuredTextCache = Map.empty, eventPositions = [] \<rparr>"

definition plain_row :: "PositionedEvent list" where
  "plain_row = positionedEvents (hd (eventPositions (layout_of plain_events)))"

definition red_row :: "PositionedEvent list" where
  "red_row = positionedEvents (hd (eventPositions (layout_of red_events)))"

text \<open>
  Collections for the extent: none at all, a single point event, one event from
  1 January 2000 to 31 December 2020, and one from 15 June 1990 to 15 June 2040 (UTC).
\<close>

definition point_collection :: "EventCollection list" where
  "point_collection =
     [\<lparr> ec_events = [\<lparr> ev_title = ''p'', ev_start = 5000, ev_end = None, ev_color = None \<rparr>],
        ec_title = ''row'' \<rparr>]"

definition twenty_one_years :: "EventCollection list" where
  "twenty_one_years =
     [\<lparr> ec_events = [\<lparr> ev_title = ''q'', ev_start = 946684800000,
                        ev_end = Some 1609372800000, ev_color = None \<rparr>],
        ec_title = ''row'' \<rparr>]"

definition fifty_years :: "EventCollection list" where
  "fifty_years =
     [\<lparr> ec_events = [\<lparr> ev_title = ''r'', ev_start = 645408000000,
                        ev_end = Some 2223244800000, ev_color = None \<rparr>],
        ec_title = ''row'' \<rparr>]"

text \<open>
  The controller of \<open>Timeline\<close>: the callback pans the extent in a container 1000 pixels
  wide; at first no run is active and the extent goes from 0 to 1000.
\<close>

definition idle_timeline :: "TimelineExtent Inertia" where
  "idle_timeline = initial \<lparr> ext_start = 0, ext_end = 1000 \<rparr>"

text \<open>A collection whose array of events, at reference 0, holds the later event first.\<close>

definition later_event :: Event where
  "later_event = \<lparr> ev_title = ''later'', ev_start = 20, ev_end = None, ev_color = None \<rparr>"

definition earlier_event :: Event where
  "earlier_event = \<lparr> ev_title = ''earlier'', ev_start = 10, ev_end = None, ev_color = None \<rparr>"

definition unsorted_store :: store where
  "unsorted_store r = (if r = 0 then [later_event, earlier_event] else [])"

definition unsorted_collection :: "CollectionRef list" where
  "unsorted_collection = [\<lparr> cr_events = 0, cr_title = ''row'' \<rparr>]"

section \<open>Lane assignment\<close>

lemma find_lane_free: "\<not> list_ex (blocks l dw (find_lane ps l dw n)) ps"
proof (induction ps l dw n rule: find_lane.induct)
  case (1 ps l dw n)
  show ?case
  proof (cases "list_ex (blocks l dw n) ps")
    case True
    with 1 show ?thesis by (simp add: find_lane.simps)
  next
    case False
    then show ?thesis by (simp add: find_lane.simps)
  qed
qed

lemma find_lane_stays: "\<not> list_ex (blocks l dw n) ps \<Longrightarrow> find_lane ps l dw n = n"
  by (simp add: find_lane.simps)

text \<open>
  \<open>find\<close> returns the element, and every element of the array is \<open>undefined\<close>: there is
  never a next non-coloured lane, and an event without a placed event of its colour
  prefers lane 0.
\<close>

lemma array_find_undefined:
  "(case array_find P i (replicate n None) of None \<Rightarrow> None | Some x \<Rightarrow> x) = None"
  by (induction n arbitrary: i) auto

lemma nextNonColoredLane_undefined: "nextNonColoredLane cl = None"
  unfolding nextNonColoredLane_def by (rule array_find_undefined)

lemma preferredLane_eq:
  "preferredLane ps e =
     (case find (\<lambda>x. ev_color (event x) = ev_color e) ps of Some x \<Rightarrow> lane x | None \<Rightarrow> 0)"
  by (simp add: preferredLane_def nextNonColoredLane_undefined split: option.splits)

text \<open>What one iteration of the inner loop appends.\<close>

lemma position_event_snoc:
  "\<exists>p. snd (position_event m ext sc acc e) = snd acc @ [p] \<and> event p = e
        \<and> lane p = find_lane (snd acc) (left p) (displayWidth p) (preferredLane (snd acc) e)"
  by (simp add: position_event_def Let_def split: prod.splits)

text \<open>A property of rows that holds of the empty row and that each iteration keeps holds of
  every row of the layout.\<close>

lemma foldl_position_event_inv:
  assumes "\<And>acc e. I (snd acc) \<Longrightarrow> I (snd (position_event m ext sc acc e))"
  shows "I (snd acc) \<Longrightarrow> I (snd (foldl (position_event m ext sc) acc es))"
  by (induction es arbitrary: acc) (simp_all add: assms)

lemma position_collection_inv:
  assumes "I []"
    and "\<And>acc e. I (snd acc) \<Longrightarrow> I (snd (position_event m ext sc acc e))"
    and "\<forall>pc\<in>set (snd acc). I (positionedEvents pc)"
  shows "\<forall>pc\<in>set (snd (position_collection m ext sc acc c)). I (positionedEvents pc)"
proof -
  have "I (snd (foldl (position_event m ext sc) (fst acc, []) (ec_events c)))"
    by (rule foldl_position_event_inv [where I = I]) (simp_all add: assms(1,2))
  with assms(3) show ?thesis
    by (auto simp: position_collection_def split: prod.splits)
qed

lemma foldl_position_collection_inv:
  assumes "I []"
    and "\<And>acc e. I (snd acc) \<Longrightarrow> I (snd (position_event m ext sc acc e))"
  shows "\<forall>pc\<in>set (snd acc). I (positionedEvents pc) \<Longrightarrow>
         \<forall>pc\<in>set (snd (foldl (position_collection m ext sc) acc cs)). I (positionedEvents pc)"
proof (induction cs arbitrary: acc)
  case Nil
  then show ?case by simp
next
  case (Cons c cs)
  show ?case
    unfolding foldl_Cons
    by (rule Cons.IH) (rule position_collection_inv [OF assms Cons.prems])
qed

lemma layout_inv:
  assumes "I []"
    and "\<And>sc acc e. I (snd acc) \<Longrightarrow> I (snd (position_event m ext sc acc e))"
    and "\<not> falsy_dim w" and "\<not> falsy_dim h"
  shows "\<forall>pc\<in>set (eventPositions (layout m w h ext cs st)). I (positionedEvents pc)"
proof -
  have "\<forall>pc\<in>set (snd (foldl (position_collection m ext sc) (measuredTextCache st, []) cs)).
          I (positionedEvents pc)" for sc
    by (rule foldl_position_collection_inv [where I = I]) (simp_all add: assms(1,2))
  with assms(3,4) show ?thesis
    by (simp add: layout_def Let_def split: prod.splits) (metis snd_conv)
qed

subsection \<open>No two events of a lane overlap\<close>

lemma lanes_ok_snoc:
  assumes "lanes_ok ps" and "\<forall>q\<in>set ps. lane q = lane p \<longrightarrow> \<not> spans_overlap q p"
  shows "lanes_ok (ps @ [p])"
  unfolding lanes_ok_def
proof (intro allI impI)
  fix i j
  assume i: "i < length (ps @ [p])" and j: "j < i"
    and eq: "lane ((ps @ [p]) ! i) = lane ((ps @ [p]) ! j)"
  show "\<not> spans_overlap ((ps @ [p]) ! j) ((ps @ [p]) ! i)"
  proof (cases "i < length ps")
    case True
    with assms(1) j eq show ?thesis
      by (simp add: lanes_ok_def nth_append)
  next
    case False
    with i have il: "i = length ps" by simp
    with j have "ps ! j \<in> set ps" by simp
    with assms(2) eq il j show ?thesis
      by (simp add: nth_append)
  qed
qed

lemma position_event_lanes_ok:
  assumes "lanes_ok (snd acc)"
  shows "lanes_ok (snd (position_event m ext sc acc e))"
proof -
  obtain p where eq: "snd (position_event m ext sc acc e) = snd acc @ [p]"
    and n: "lane p = find_lane (snd acc) (left p) (displayWidth p) (preferredLane (snd acc) e)"
    using position_event_snoc by blast
  have "\<not> list_ex (blocks (left p) (displayWidth p) (lane p)) (snd acc)"
    unfolding n by (rule find_lane_free)
  then have "\<forall>q\<in>set (snd acc). lane q = lane p \<longrightarrow> \<not> spans_overlap q p"
    by (auto simp: list_ex_iff blocks_def spans_overlap_def)
  with assms show ?thesis
    unfolding eq by (rule lanes_ok_snoc)
qed

lemmas layout_eval = layout_of_def label10_def layout_def falsy_dim_def position_collection_def
  position_event_def measureText_def preferredLane_def nextNonColoredLane_def coloredLanes_def
  blocks_def truthy_def dotSize_def textPadding_def halfDotSize_def Let_def find_lane.simps

lemma plain_row_eval:
  "plain_row =
     [\<lparr>left = - 7, eventWidth = 16, displayWidth = 32, textWidth = 10, height = 16, top_px = 0,
        event = plain_events ! 0, lane = 0\<rparr>,
      \<lparr>left = 3, eventWidth = 16, displayWidth = 32, textWidth = 10, height = 16, top_px = 22,
        event = plain_events ! 1, lane = 1\<rparr>,
      \<lparr>left = 93, eventWidth = 107, displayWidth = 107, textWidth = 10, height = 16, top_px = 0,
        event = plain_events ! 2, lane = 0\<rparr>]"
  by (simp add: plain_row_def plain_events_def layout_eval)

lemma plain_row_mem:
  "\<lparr> positionedEvents = plain_row, pc_title = ''row'' \<rparr>
     \<in> set (eventPositions (layout label10 (Some 1000) (Some 500)
          \<lparr> ext_start = 0, ext_end = 1000 \<rparr> [\<lparr> ec_events = plain_events, ec_title = ''row'' \<rparr>]
          \<lparr> measuredTextCache = Map.empty, eventPositions = [] \<rparr>))"
  unfolding plain_row_def layout_of_def
  by (simp add: plain_events_def layout_eval)

text \<open>
  C1.  In a layout that \<open>layout\<close> has written (the container has a width and a height),
  two different placed events of one collection that have the same lane do not overlap:
  their spans \<open>[left, left + displayWidth)\<close> fail the half-open overlap test.
\<close>

theorem layout_no_overlap:
  assumes "\<not> falsy_dim offsetWidth" and "\<not> falsy_dim offsetHeight"
    and "pc \<in> set (eventPositions
            (layout canvasMeasure offsetWidth offsetHeight extent collection st))"
    and "i < length (positionedEvents pc)" and "j < length (positionedEvents pc)" and "i \<noteq> j"
    and "lane (positionedEvents pc ! i) = lane (positionedEvents pc ! j)"
  shows "\<not> spans_overlap (positionedEvents pc ! i) (positionedEvents pc ! j)"
proof -
  have "\<forall>pc\<in>set (eventPositions
            (layout canvasMeasure offsetWidth offsetHeight extent collection st)).
          lanes_ok (positionedEvents pc)"
    by (rule layout_inv [where I = lanes_ok])
       (simp_all add: lanes_ok_def [of "[]"] position_event_lanes_ok assms(1,2))
  with assms(3) have ok: "lanes_ok (positionedEvents pc)"
    by blast
  show ?thesis
  proof (cases "i < j")
    case True
    with ok assms(5,7) show ?thesis
      unfolding lanes_ok_def by (metis (no_types))
  next
    case False
    with assms(6) have "j < i" by simp
    with ok assms(4,7)
    have "\<not> spans_overlap (positionedEvents pc ! j) (positionedEvents pc ! i)"
      unfolding lanes_ok_def by (metis (no_types))
    then show ?thesis
      by (auto simp: spans_overlap_def)
  qed
qed

theorem layout_no_overlap_witness:
  "length plain_row = 3 \<and> lane (plain_row ! 0) = lane (plain_row ! 2)
   \<and> \<not> spans_overlap (plain_row ! 0) (plain_row ! 2)"
proof -
  have dims: "\<not> falsy_dim (Some 1000)" "\<not> falsy_dim (Some 500)"
    by (simp_all add: falsy_dim_def)
  have idx: "0 < length (positionedEvents \<lparr> positionedEvents = plain_row, pc_title = ''row'' \<rparr>)"
    "2 < length (positionedEvents \<lparr> positionedEvents = plain_row, pc_title = ''row'' \<rparr>)"
    "(0::nat) \<noteq> 2"
    "lane (positionedEvents \<lparr> positionedEvents = plain_row, pc_title = ''row'' \<rparr> ! 0)
       = lane (positionedEvents \<lparr> positionedEvents = plain_row, pc_title = ''row'' \<rparr> ! 2)"
    by (simp_all add: plain_row_eval)
  from layout_no_overlap [OF dims plain_row_mem idx]
  show ?thesis
    by (simp add: plain_row_eval)
qed

subsection \<open>The lane of an event whose colour is already placed\<close>

lemma position_event_scan_placed:
  assumes "scan_placed (snd acc)"
  shows "scan_placed (snd (position_event m ext sc acc e))"
proof -
  obtain p where eq: "snd (position_event m ext sc acc e) = snd acc @ [p]"
    and e: "event p = e"
    and n: "lane p = find_lane (snd acc) (left p) (displayWidth p) (preferredLane (snd acc) e)"
    using position_event_snoc by blast
  show ?thesis
    unfolding eq scan_placed_def
  proof (intro allI impI)
    fix j
    assume "j < length (snd acc @ [p])"
    then consider "j < length (snd acc)" | "j = length (snd acc)"
      by fastforce
    then show "lane ((snd acc @ [p]) ! j) =
        find_lane (take j (snd acc @ [p])) (left ((snd acc @ [p]) ! j))
          (displayWidth ((snd acc @ [p]) ! j))
          (preferredLane (take j (snd acc @ [p])) (event ((snd acc @ [p]) ! j)))"
    proof cases
      case 1
      with assms show ?thesis
        by (simp add: scan_placed_def nth_append)
    next
      case 2
      with n e show ?thesis
        by simp
    qed
  qed
qed

lemma red_row_eval:
  "red_row =
     [\<lparr>left = - 7, eventWidth = 16, displayWidth = 32, textWidth = 10, height = 16, top_px = 0,
        event = red_events ! 0, lane = 0\<rparr>,
      \<lparr>left = 3, eventWidth = 16, displayWidth = 32, textWidth = 10, height = 16, top_px = 22,
        event = red_events ! 1, lane = 1\<rparr>,
      \<lparr>left = 93, eventWidth = 16, displayWidth = 32, textWidth = 10, height = 16, top_px = 0,
        event = red_events ! 2, lane = 0\<rparr>]"
  by (simp add: red_row_def red_events_def layout_eval)

lemma red_row_mem:
  "\<lparr> positionedEvents = red_row, pc_title = ''row'' \<rparr>
     \<in> set (eventPositions (layout label10 (Some 1000) (Some 500)
          \<lparr> ext_start = 0, ext_end = 1000 \<rparr> [\<lparr> ec_events = red_events, ec_title = ''row'' \<rparr>]
          \<lparr> measuredTextCache = Map.empty, eventPositions = [] \<rparr>))"
  unfolding red_row_def layout_of_def
  by (simp add: red_events_def layout_eval)

text \<open>
  C2, as stated, fails.  Three red events, in the order in which the sort leaves them: the
  second overlaps the first and moves to lane 1; the third overlaps nothing on lane 1, the
  lane of the second, and shares its colour, yet it is placed on lane 0, the lane of the
  first.
\<close>

theorem color_pair_counterexample:
  "array_sort compareEvents red_events = red_events
   \<and> truthy (ev_color (event (red_row ! 1)))
   \<and> ev_color (event (red_row ! 1)) = ev_color (event (red_row ! 2))
   \<and> \<not> list_ex (blocks (left (red_row ! 2)) (displayWidth (red_row ! 2)) (lane (red_row ! 1)))
         (take 2 red_row)
   \<and> lane (red_row ! 2) \<noteq> lane (red_row ! 1)"
  by (simp add: red_row_eval red_events_def truthy_def blocks_def array_sort_def
      compareEvents_def)

text \<open>
  C2, amended.  When an already-placed event of the collection has the colour of the event
  being placed, the preferred lane is the lane of the \<^emph>\<open>first\<close> such placed event \<open>p\<close>; if
  the span of the new event overlaps no event already placed on that lane, the new event
  gets the lane of \<open>p\<close>.
\<close>

theorem color_first_lane:
  assumes "\<not> falsy_dim offsetWidth" and "\<not> falsy_dim offsetHeight"
    and "pc \<in> set (eventPositions
            (layout canvasMeasure offsetWidth offsetHeight extent collection st))"
    and "j < length (positionedEvents pc)"
    and "find (\<lambda>x. ev_color (event x) = ev_color (event (positionedEvents pc ! j)))
           (take j (positionedEvents pc)) = Some p"
    and "\<forall>q\<in>set (take j (positionedEvents pc)).
           lane q = lane p \<longrightarrow> \<not> spans_overlap q (positionedEvents pc ! j)"
  shows "preferredLane (take j (positionedEvents pc)) (event (positionedEvents pc ! j)) = lane p
         \<and> lane (positionedEvents pc ! j) = lane p"
proof -
  let ?ps = "positionedEvents pc"
  have "\<forall>pc\<in>set (eventPositions
            (layout canvasMeasure offsetWidth offsetHeight extent collection st)).
          scan_placed (positionedEvents pc)"
    by (rule layout_inv [where I = scan_placed])
       (simp_all add: scan_placed_def [of "[]"] position_event_scan_placed assms(1,2))
  with assms(3) have "scan_placed ?ps"
    by blast
  with assms(4) have n: "lane (?ps ! j) =
      find_lane (take j ?ps) (left (?ps ! j)) (displayWidth (?ps ! j))
        (preferredLane (take j ?ps) (event (?ps ! j)))"
    by (simp add: scan_placed_def)
  have pref: "preferredLane (take j ?ps) (event (?ps ! j)) = lane p"
    by (simp add: preferredLane_eq assms(5))
  have "\<not> list_ex (blocks (left (?ps ! j)) (displayWidth (?ps ! j)) (lane p)) (take j ?ps)"
    using assms(6) by (auto simp: list_ex_iff blocks_def spans_overlap_def)
  then have "find_lane (take j ?ps) (left (?ps ! j)) (displayWidth (?ps ! j)) (lane p) = lane p"
    by (rule find_lane_stays)
  with n pref show ?thesis
    by simp
qed

theorem color_first_lane_witness:
  "find (\<lambda>x. ev_color (event x) = ev_color (event (red_row ! 2))) (take 2 red_row)
     = Some (red_row ! 0)
   \<and> preferredLane (take 2 red_row) (event (red_row ! 2)) = 0
   \<and> lane (red_row ! 2) = 0"
proof -
  let ?pc = "\<lparr> positionedEvents = red_row, pc_title = ''row'' \<rparr>"
  have dims: "\<not> falsy_dim (Some 1000)" "\<not> falsy_dim (Some 500)"
    by (simp_all add: falsy_dim_def)
  have j: "2 < length (positionedEvents ?pc)"
    by (simp add: red_row_eval)
  have f: "find (\<lambda>x. ev_color (event x) = ev_color (event (positionedEvents ?pc ! 2)))
             (take 2 (positionedEvents ?pc)) = Some (red_row ! 0)"
    by (simp add: red_row_eval red_events_def)
  have free: "\<forall>q\<in>set (take 2 (positionedEvents ?pc)).
      lane q = lane (red_row ! 0) \<longrightarrow> \<not> spans_overlap q (positionedEvents ?pc ! 2)"
    by (simp add: red_row_eval spans_overlap_def)
  from color_first_lane [OF dims red_row_mem j f free] f
  show ?thesis
    by (simp add: red_row_eval)
qed

section \<open>The initial extent\<close>

lemma extent_step_min_max:
  "ext_start (extent_step acc e) = min (ev_start e) (ext_start acc)"
  "ext_end (extent_step acc e) = max (end_or_start e) (ext_end acc)"
  by (auto simp: extent_step_def Let_def)

lemma foldl_extent_step_start:
  "ext_start (foldl extent_step acc es) = Min (insert (ext_start acc) (ev_start ` set es))"
proof (induction es arbitrary: acc)
  case Nil
  show ?case by simp
next
  case (Cons e es)
  have "Min (insert (min (ev_start e) (ext_start acc)) (ev_start ` set es))
        = Min (insert (ext_start acc) (insert (ev_start e) (ev_start ` set es)))"
    by (cases "es = []") (simp_all add: min.assoc min.left_commute min.commute)
  then show ?case
    by (simp add: Cons.IH extent_step_min_max)
qed

lemma foldl_extent_step_end:
  "ext_end (foldl extent_step acc es) = Max (insert (ext_end acc) (end_or_start ` set es))"
proof (induction es arbitrary: acc)
  case Nil
  show ?case by simp
next
  case (Cons e es)
  have "Max (insert (max (end_or_start e) (ext_end acc)) (end_or_start ` set es))
        = Max (insert (ext_end acc) (insert (end_or_start e) (end_or_start ` set es)))"
    by (cases "es = []") (simp_all add: max.assoc max.left_commute max.commute)
  then show ?case
    by (simp add: Cons.IH extent_step_min_max)
qed


text \<open>The extent before and after the cap, for a non-empty list of events.\<close>

lemma calculateExtent_nonempty:
  assumes "concat (map ec_events collection) = e0 # es"
  shows "calculateExtent gY nD collection =
     (let extent = foldl extent_step \<lparr> ext_start = ev_start e0, ext_end = ev_start e0 \<rparr> (e0 # es)
      in Inr (if gY (ext_end extent) - gY (ext_start extent) > 20
              then extent \<lparr> ext_end := nD (gY (ext_start extent) + 20) \<rparr>
              else extent))"
  using assms by (simp add: calculateExtent_def Let_def)

lemma calendar_eval:
  "utc_getFullYear 5000 = 1970"
  "utc_getFullYear 946684800000 = 2000"
  "utc_getFullYear 1609372800000 = 2020"
  "utc_getFullYear 645408000000 = 1990"
  "utc_getFullYear 2223244800000 = 2040"
  "utc_getFullYear 1262304000000 = 2010"
  "utc_newDateYear 2010 = 1262304000000"
  by code_simp+

lemmas extent_eval = calculateExtent_def extent_step_def end_or_start_def Let_def

text \<open>
  C3.  When the collections hold no event at all, \<open>calculateExtent\<close> fails (with the
  \<open>TypeError\<close> of reading \<open>events[0].start\<close>, the error that the specification calls
  \<open>EmptyInputError\<close>) and returns no extent; with at least one event it returns one.
\<close>

theorem calculateExtent_empty_fails:
  "(concat (map ec_events collection) = [] \<longrightarrow>
      calculateExtent getFullYear newDateYear collection = Inl TypeError)
   \<and> (concat (map ec_events collection) \<noteq> [] \<longrightarrow>
      (\<exists>extent. calculateExtent getFullYear newDateYear collection = Inr extent))"
proof (cases "concat (map ec_events collection)")
  case Nil
  have "calculateExtent getFullYear newDateYear collection = Inl TypeError"
    unfolding calculateExtent_def Let_def Nil by simp
  with Nil show ?thesis
    by blast
next
  case (Cons e0 es)
  have "\<exists>extent. calculateExtent getFullYear newDateYear collection = Inr extent"
    unfolding calculateExtent_nonempty [OF Cons] Let_def by blast
  with Cons show ?thesis
    by simp
qed

theorem calculateExtent_empty_fails_witness:
  "calculateExtent utc_getFullYear utc_newDateYear [] = Inl TypeError
   \<and> calculateExtent utc_getFullYear utc_newDateYear
        [\<lparr> ec_events = [], ec_title = ''row'' \<rparr>, \<lparr> ec_events = [], ec_title = ''other'' \<rparr>]
       = Inl TypeError
   \<and> (\<exists>extent. calculateExtent utc_getFullYear utc_newDateYear point_collection = Inr extent)"
  using calculateExtent_empty_fails [of "[]" utc_getFullYear utc_newDateYear]
    calculateExtent_empty_fails
      [of "[\<lparr> ec_events = [], ec_title = ''row'' \<rparr>, \<lparr> ec_events = [], ec_title = ''other'' \<rparr>]"
          utc_getFullYear utc_newDateYear]
    calculateExtent_empty_fails [of point_collection utc_getFullYear utc_newDateYear]
  by (simp add: point_collection_def)

text \<open>
  C4, as stated, fails.  One event from 1 January 2000 to 31 December 2020 spans 7670
  days, more than any twenty years (at most \<open>20 * 366\<close> days), but the two calendar years
  differ by 20 only: the end is not clamped, and the extent is the whole span.
\<close>

theorem extent_cap_counterexample:
  "calculateExtent utc_getFullYear utc_newDateYear twenty_one_years
     = Inr \<lparr> ext_start = 946684800000, ext_end = 1609372800000 \<rparr>
   \<and> 1609372800000 - 946684800000 > 20 * 366 * msPerDay"
  by (simp add: twenty_one_years_def extent_eval calendar_eval msPerDay_def)

text \<open>
  C4, amended.  For a non-empty input the extent starts at the earliest start \<open>lo\<close>.  With
  \<open>hi\<close> the latest end-or-start (or the start of the first event, if later): when the
  calendar year of \<open>hi\<close> exceeds the calendar year of \<open>lo\<close> by more than 20, the end is
  1 January of the year of \<open>lo\<close> plus 20; otherwise the end is \<open>hi\<close>.  So the calendar years
  of the two bounds differ by at most 20, provided 1 January of that year lies in that
  year.
\<close>

theorem calculateExtent_cap:
  assumes "events = concat (map ec_events collection)" and "events \<noteq> []"
    and "lo = Min (ev_start ` set events)"
    and "hi = Max (insert (ev_start (hd events)) (end_or_start ` set events))"
  shows "\<exists>extent. calculateExtent getFullYear newDateYear collection = Inr extent
           \<and> ext_start extent = lo
           \<and> (if getFullYear hi - getFullYear lo > 20
              then ext_end extent = newDateYear (getFullYear lo + 20)
              else ext_end extent = hi)
           \<and> (getFullYear (newDateYear (getFullYear lo + 20)) = getFullYear lo + 20
                \<longrightarrow> getFullYear (ext_end extent) - getFullYear (ext_start extent) \<le> 20)"
proof -
  obtain e0 es where ev: "events = e0 # es"
    using assms(2) by (cases events) auto
  define unclamped where
    "unclamped = foldl extent_step \<lparr> ext_start = ev_start e0, ext_end = ev_start e0 \<rparr> (e0 # es)"
  have lo: "ext_start unclamped = lo"
    unfolding unclamped_def foldl_extent_step_start assms(3) ev by simp
  have hi: "ext_end unclamped = hi"
    unfolding unclamped_def foldl_extent_step_end assms(4) ev by simp
  have c: "concat (map ec_events collection) = e0 # es"
    using ev assms(1) by simp
  have "calculateExtent getFullYear newDateYear collection =
     Inr (if getFullYear hi - getFullYear lo > 20
          then unclamped \<lparr> ext_end := newDateYear (getFullYear lo + 20) \<rparr>
          else unclamped)"
    unfolding calculateExtent_nonempty [OF c] Let_def unclamped_def [symmetric] lo hi
    by (rule refl)
  then show ?thesis
    by (auto simp: lo hi)
qed

theorem calculateExtent_cap_witness:
  "calculateExtent utc_getFullYear utc_newDateYear fifty_years
     = Inr \<lparr> ext_start = 645408000000, ext_end = 1262304000000 \<rparr>
   \<and> utc_getFullYear 2223244800000 - utc_getFullYear 645408000000 > 20
   \<and> utc_newDateYear (utc_getFullYear 645408000000 + 20) = 1262304000000
   \<and> utc_getFullYear 1262304000000 - utc_getFullYear 645408000000 \<le> 20"
proof -
  let ?events = "[\<lparr> ev_title = ''r'', ev_start = 645408000000,
                     ev_end = Some 2223244800000, ev_color = None \<rparr>]"
  have a: "?events = concat (map ec_events fifty_years)" "?events \<noteq> []"
    "645408000000 = Min (ev_start ` set ?events)"
    "2223244800000 = Max (insert (ev_start (hd ?events)) (end_or_start ` set ?events))"
    by (simp_all add: fifty_years_def end_or_start_def)
  from calculateExtent_cap [OF a, of utc_getFullYear utc_newDateYear]
  show ?thesis
    by (simp add: fifty_years_def extent_eval calendar_eval)
qed

section \<open>Pan and zoom\<close>





lemma calculateNewPan_eq:
  "calculateNewPan w d s e =
     \<lparr> ext_start = new_Date (real_of_int s - d * real_of_int (e - s) / real w),
       ext_end = new_Date (real_of_int e - d * real_of_int (e - s) / real w) \<rparr>"
  by (simp add: calculateNewPan_def Let_def)






subsection \<open>The zoom formula and its sensitivity\<close>


text \<open>
  The earlier drag handler does not follow the formula with \<open>K = 250\<close> either: zooming
  at the middle of the container, it moves the end by 750 where the formula says 500.
\<close>

lemma earlier_drag_zoom_not_formula:
  "as_dates (spec_zoom 250 250 (1/2) (pan 0 \<lparr> ext_start = 0, ext_end = 1000 \<rparr> 1000))
     = \<lparr> ext_start = - 500, ext_end = 1500 \<rparr>
   \<and> onDrag_extent_earlier 1000 (0, 250) 500 \<lparr> ext_start = 0, ext_end = 1000 \<rparr>
     = \<lparr> ext_start = - 500, ext_end = 1750 \<rparr>"
  by (simp add: spec_zoom_def as_dates_def pan_def calculateNewPan_eq onDrag_extent_earlier_def
      new_Date_def)



subsection \<open>Pan there and back\<close>






section \<open>Inertia\<close>

lemma clearInterval_subset: "clearInterval i ts \<subseteq> ts"
  by (auto simp: clearInterval_def split: option.splits)

text \<open>Without an active interval nothing ticks, and only \<open>beginInertia\<close> adds an interval.\<close>

lemma step_no_timers:
  assumes "timers s = {}" and "\<not> is_Begin a"
  shows "timers (step callback a s) = {} \<and> calls (step callback a s) = calls s
         \<and> app (step callback a s) = app s"
proof (cases a)
  case (Begin v)
  with assms(2) show ?thesis by simp
next
  case End
  with assms(1) show ?thesis
    by (simp add: endInertia_def clearInterval_def split: option.splits)
next
  case (Tick i)
  with assms(1) show ?thesis
    by (simp add: tick_def)
qed

lemma run_no_timers:
  "timers s = {} \<Longrightarrow> \<forall>a\<in>set as. \<not> is_Begin a \<Longrightarrow>
   calls (run callback as s) = calls s \<and> app (run callback as s) = app s"
proof (induction as arbitrary: s)
  case Nil
  show ?case by simp
next
  case (Cons a as)
  from Cons.prems have st: "timers (step callback a s) = {} \<and> calls (step callback a s) = calls s
         \<and> app (step callback a s) = app s"
    by (intro step_no_timers) simp_all
  with Cons.IH [of "step callback a s"] Cons.prems(2) show ?case
    by simp
qed

lemma begin_end_no_timers:
  "timers s = {} \<Longrightarrow> timers (endInertia (beginInertia v s)) = {}"
  by (simp add: endInertia_def beginInertia_def clearInterval_def)

lemma begin_end_calls:
  "calls (endInertia (beginInertia v s)) = calls s \<and> app (endInertia (beginInertia v s)) = app s"
  by (simp add: endInertia_def beginInertia_def)

lemmas inertia_eval = initial_def beginInertia_def endInertia_def tick_def clearInterval_def

text \<open>
  C8.  On a controller without an active interval, \<open>start\<close> followed at once by \<open>stop\<close>,
  then any ticks and further stops but no other \<open>start\<close>: the callback is never called
  (the list of its calls and the state it works on stay as they were).
\<close>

theorem start_stop_never_calls:
  assumes "timers s = {}" and "\<forall>a\<in>set as. \<not> is_Begin a"
  shows "calls (run callback (Begin v # End # as) s) = calls s
         \<and> app (run callback (Begin v # End # as) s) = app s"
proof -
  have "timers (endInertia (beginInertia v s)) = {}"
    using assms(1) by (rule begin_end_no_timers)
  from run_no_timers [OF this assms(2), of callback] begin_end_calls [of v s]
  show ?thesis
    by simp
qed

theorem start_stop_never_calls_witness:
  "timers idle_timeline = {}
   \<and> calls (run (inertia_callback 1000) [Begin 10, End, Tick 1, Tick 1, End, Tick 2] idle_timeline) = []
   \<and> app (run (inertia_callback 1000) [Begin 10, End, Tick 1, Tick 1, End, Tick 2] idle_timeline)
       = \<lparr> ext_start = 0, ext_end = 1000 \<rparr>"
proof -
  have a: "timers idle_timeline = {}"
    by (simp add: idle_timeline_def initial_def)
  have b: "\<forall>a\<in>set [Tick 1, Tick 1, End, Tick 2]. \<not> is_Begin a"
    by simp
  from start_stop_never_calls [OF a b, of "inertia_callback 1000" 10] a
  show ?thesis
    by (simp add: idle_timeline_def initial_def)
qed

text \<open>
  C9, as stated, fails.  \<open>beginInertia\<close> does not stop a run that is active: after two
  starts two intervals are active; \<open>stop\<close> then clears the second only, and the first still
  ticks and calls the callback.
\<close>

theorem second_start_counterexample:
  "card (timers (run (inertia_callback 1000) [Begin 10, Begin 10] idle_timeline)) = 2
   \<and> timers (run (inertia_callback 1000) [Begin 10, Begin 10, End] idle_timeline) = {1}
   \<and> calls (run (inertia_callback 1000) [Begin 10, Begin 10, End, Tick 1] idle_timeline) = [10]"
  by (simp add: idle_timeline_def inertia_eval)

lemma step_one_timer:
  assumes "timers s = set_option (intervalId s)"
    and "is_Begin a \<longrightarrow> intervalId s = None"
  shows "timers (step callback a s) = set_option (intervalId (step callback a s))"
proof (cases a)
  case (Begin v)
  with assms show ?thesis
    by (simp add: beginInertia_def)
next
  case End
  with assms(1) show ?thesis
    by (auto simp: endInertia_def clearInterval_def)
next
  case (Tick i)
  with assms(1) show ?thesis
    by (auto simp: tick_def Let_def clearInterval_def)
qed

lemma run_one_timer:
  "timers s = set_option (intervalId s) \<Longrightarrow> begins_when_idle callback as s \<Longrightarrow>
   timers (run callback as s) = set_option (intervalId (run callback as s))"
proof (induction as arbitrary: s)
  case Nil
  then show ?case by simp
next
  case (Cons a as)
  from Cons.prems have "timers (step callback a s) = set_option (intervalId (step callback a s))"
    by (intro step_one_timer) (simp_all split: if_splits)
  with Cons.IH [of "step callback a s"] Cons.prems(2) show ?case
    by simp
qed

text \<open>
  C9, amended.  \<open>start\<close> does not stop a previous run.  As long as every \<open>start\<close> comes
  when \<open>intervalId\<close> holds no interval (after a \<open>stop\<close>, or after the run has ended by
  itself), at most one interval is active in every state that is reached, it is the one
  \<open>intervalId\<close> holds, and after \<open>stop\<close> none is active.
\<close>

theorem one_timer_when_started_idle:
  assumes "timers s = set_option (intervalId s)" and "begins_when_idle callback as s"
  shows "card (timers (run callback as s)) \<le> 1
         \<and> timers (run callback as s) = set_option (intervalId (run callback as s))
         \<and> timers (endInertia (run callback as s)) = {}"
proof -
  have inv: "timers (run callback as s) = set_option (intervalId (run callback as s))"
    using assms by (rule run_one_timer)
  have "card (set_option (intervalId (run callback as s))) \<le> 1"
    by (cases "intervalId (run callback as s)") simp_all
  moreover have "timers (endInertia (run callback as s)) = {}"
    using inv by (auto simp: endInertia_def clearInterval_def)
  ultimately show ?thesis
    using inv by simp
qed

theorem one_timer_when_started_idle_witness:
  "begins_when_idle (inertia_callback 1000) [Begin 10, Tick 1, End, Begin 5, Tick 2] idle_timeline
   \<and> timers (run (inertia_callback 1000) [Begin 10, Tick 1, End, Begin 5, Tick 2] idle_timeline) = {2}
   \<and> calls (run (inertia_callback 1000) [Begin 10, Tick 1, End, Begin 5, Tick 2] idle_timeline)
       = [10, 5]
   \<and> timers (endInertia
        (run (inertia_callback 1000) [Begin 10, Tick 1, End, Begin 5, Tick 2] idle_timeline)) = {}"
proof -
  have a: "timers idle_timeline = set_option (intervalId idle_timeline)"
    by (simp add: idle_timeline_def initial_def)
  have b: "begins_when_idle (inertia_callback 1000) [Begin 10, Tick 1, End, Begin 5, Tick 2]
      idle_timeline"
    by (simp add: idle_timeline_def inertia_eval)
  from one_timer_when_started_idle [OF a b] b
  show ?thesis
    by (simp add: idle_timeline_def inertia_eval)
qed

section \<open>Sorting in place\<close>

lemmas sort_eval = render_layout_def sortedCollection_def sort_in_place_def array_sort_def
  compareEvents_def truthy_def unsorted_store_def unsorted_collection_def later_event_def
  earlier_event_def

text \<open>
  C10.  The claim is that a layout pass leaves the arrays of the caller as they were.
  The code does not: \<open>events.sort\<close> reorders the array it is given.  A collection whose
  array holds the later event first holds the earlier event first after one render and
  layout.
\<close>

theorem sort_mutates_input:
  "unsorted_store 0 = [later_event, earlier_event]
   \<and> fst (render_layout label10 (Some 1000) (Some 500) \<lparr> ext_start = 0, ext_end = 1000 \<rparr>
            unsorted_store unsorted_collection
            \<lparr> measuredTextCache = Map.empty, eventPositions = [] \<rparr>) 0
       = [earlier_event, later_event]"
  by (simp add: sort_eval split: prod.splits)

end
